theory Spec2Isabelle
  imports Main
begin

section \<open>Python values and strings\<close>

text \<open>
  The script \<^verbatim>\<open>src/main.py\<close> scrapes a table of models with a browser, cleans the rows
  with \<^verbatim>\<open>validate_and_clean_models\<close>, writes them to a file, fetches a JSON payload and
  writes it to a second file.

  A Python \<^verbatim>\<open>str\<close> is modelled as a \<^typ>\<open>string\<close>; a \<^typ>\<open>char\<close> is read as the Unicode code
  point of the same number (0 to 255, the Basic Latin and Latin-1 blocks). On these code
  points \<^verbatim>\<open>str.strip\<close>, \<^verbatim>\<open>str.lower\<close> and the regular-expression class \<^verbatim>\<open>\d\<close> are
  modelled as Python 3 defines them. Code points above 255 are outside the model.
\<close>

text \<open>
  A value found in a scraped row. \<open>POther s\<close> stands for any value that is neither
  \<^verbatim>\<open>None\<close>, a \<^verbatim>\<open>bool\<close>, an \<^verbatim>\<open>int\<close> nor a \<^verbatim>\<open>str\<close> (a float, a list, a dict), given by the
  text \<open>s\<close> that \<^verbatim>\<open>str()\<close> returns for it; like the first three it has no \<^verbatim>\<open>strip\<close>
  attribute. These are the values \<^verbatim>\<open>page.evaluate\<close> can return; a \<^verbatim>\<open>bytes\<close> value, which has a
  \<^verbatim>\<open>strip\<close> method of its own, is outside the model.
\<close>

datatype pyval = PNone | PBool bool | PInt int | PStr string | POther string

text \<open>An element of the input list: a dict (read only through \<^verbatim>\<open>get\<close>), or anything else.\<close>

datatype raw_row = NonDict pyval | Dict "string \<rightharpoonup> pyval"

text \<open>
  The exceptions of the modelled code: a method that the value does not have, and
  \<^verbatim>\<open>len\<close> of a value that has no length.
\<close>

datatype error = AttributeError | TypeError

text \<open>The canonical record \<^verbatim>\<open>{"model": ..., "id": ..., "context": ...}\<close> the function emits.\<close>

record model_record =
  rec_model :: string
  rec_id :: string
  rec_context :: string

text \<open>\<^verbatim>\<open>str.isspace\<close> of one character: the white space of Unicode below 256.\<close>

definition py_isspace :: "char \<Rightarrow> bool" where
  "py_isspace c =
     (let n = (of_char c :: nat)
      in (9 \<le> n \<and> n \<le> 13) \<or> (28 \<le> n \<and> n \<le> 32) \<or> n = 133 \<or> n = 160)"

text \<open>\<^verbatim>\<open>s.strip()\<close>: leading and trailing white space removed.\<close>

definition py_strip :: "string \<Rightarrow> string" where
  "py_strip s = rev (dropWhile py_isspace (rev (dropWhile py_isspace s)))"

text \<open>
  \<^verbatim>\<open>str.lower\<close> of one character below 256: \<open>A\<close> to \<open>Z\<close> and the upper-case letters of
  Latin-1 (192 to 222, without the multiplication sign 215) move up by 32.
\<close>

definition py_lower_char :: "char \<Rightarrow> char" where
  "py_lower_char c =
     (let n = (of_char c :: nat)
      in if (65 \<le> n \<and> n \<le> 90) \<or> (192 \<le> n \<and> n \<le> 222 \<and> n \<noteq> 215)
         then char_of (n + 32) else c)"

definition py_lower :: "string \<Rightarrow> string" where
  "py_lower s = map py_lower_char s"

text \<open>The class \<^verbatim>\<open>\d\<close> of \<^verbatim>\<open>re\<close> on a \<^verbatim>\<open>str\<close> pattern: below 256, the digits 0 to 9.\<close>

definition py_isdigit :: "char \<Rightarrow> bool" where
  "py_isdigit c = (let n = (of_char c :: nat) in 48 \<le> n \<and> n \<le> 57)"

text \<open>
  \<^verbatim>\<open>re.search(r'(\d+)', s)\<close> followed by \<^verbatim>\<open>.group(1)\<close>: the leftmost match, taken greedily;
  \<open>None\<close> when \<open>s\<close> has no digit.
\<close>

definition re_search_digits :: "string \<Rightarrow> string option" where
  "re_search_digits s =
     (let rest = dropWhile (\<lambda>c. \<not> py_isdigit c) s
      in if rest = [] then None else Some (takeWhile py_isdigit rest))"

text \<open>Decimal text of a natural number, as \<^verbatim>\<open>str(n)\<close> prints it.\<close>

function dec_of_nat :: "nat \<Rightarrow> string" where
  "dec_of_nat n =
     (if n < 10 then [char_of (48 + n)]
      else dec_of_nat (n div 10) @ [char_of (48 + n mod 10)])"
  by pat_completeness auto
termination
  by (relation "measure id") auto

declare dec_of_nat.simps [simp del]

text \<open>\<^verbatim>\<open>str(v)\<close>.\<close>

fun py_str :: "pyval \<Rightarrow> string" where
  "py_str PNone = ''None''"
| "py_str (PBool b) = (if b then ''True'' else ''False'')"
| "py_str (PInt i) = (if i < 0 then CHR ''-'' # dec_of_nat (nat (- i)) else dec_of_nat (nat i))"
| "py_str (PStr s) = s"
| "py_str (POther s) = s"

text \<open>\<^verbatim>\<open>v.strip()\<close> on a value of any type: only a \<^verbatim>\<open>str\<close> has the method.\<close>

fun strip_attr :: "pyval \<Rightarrow> error + string" where
  "strip_attr (PStr s) = Inr (py_strip s)"
| "strip_attr v = Inl AttributeError"

text \<open>\<^verbatim>\<open>d.get(k, default)\<close>.\<close>

definition dict_get :: "(string \<rightharpoonup> pyval) \<Rightarrow> string \<Rightarrow> pyval \<Rightarrow> pyval" where
  "dict_get d k dflt = (case d k of None \<Rightarrow> dflt | Some v \<Rightarrow> v)"

text \<open>\<^verbatim>\<open>a or b\<close> on strings: \<open>a\<close> when it is not empty.\<close>

definition py_or :: "string \<Rightarrow> string \<Rightarrow> string" where
  "py_or a b = (if a \<noteq> [] then a else b)"

section \<open>The normalizer\<close>

text \<open>
  Lines 249 to 256: the context value is turned into text and trimmed; when something is
  left, the first match of \<^verbatim>\<open>(\d+)\<close> replaces it, or the empty string when nothing matches.
\<close>

definition clean_context :: "pyval \<Rightarrow> string" where
  "clean_context v =
     (let ctx = py_strip (py_str v)
      in if ctx \<noteq> []
         then (case re_search_digits ctx of Some g \<Rightarrow> g | None \<Rightarrow> [])
         else ctx)"

text \<open>
  The loop of \<^verbatim>\<open>validate_and_clean_models\<close> (lines 231 to 262), with its two variables
  \<^verbatim>\<open>validated_models\<close> and \<^verbatim>\<open>seen_models\<close>. A \<^verbatim>\<open>continue\<close> is the recursive call with both
  unchanged; an exception ends the loop with \<open>Inl\<close>.
\<close>

fun vcm_loop :: "raw_row list \<Rightarrow> model_record list \<Rightarrow> string set \<Rightarrow> error + model_record list" where
  "vcm_loop [] validated_models seen_models = Inr validated_models"
| "vcm_loop (NonDict v # models) validated_models seen_models =
     vcm_loop models validated_models seen_models"
| "vcm_loop (Dict d # models) validated_models seen_models =
     (case strip_attr (dict_get d ''model'' (PStr [])) of
        Inl e \<Rightarrow> Inl e
      | Inr model_name \<Rightarrow>
     (case strip_attr (dict_get d ''id'' (PStr [])) of
        Inl e \<Rightarrow> Inl e
      | Inr model_id \<Rightarrow>
          if model_name = [] \<and> model_id = [] then vcm_loop models validated_models seen_models
          else
            let model_key = py_lower (py_or model_id model_name) in
            if model_key = [] \<or> model_key \<in> seen_models
            then vcm_loop models validated_models seen_models
            else
              let ctx = clean_context (dict_get d ''context'' (PStr []))
              in vcm_loop models
                   (validated_models @
                      [\<lparr>rec_model = py_or model_name model_id, rec_id = model_id,
                        rec_context = ctx\<rparr>])
                   (insert model_key seen_models)))"

definition validate_and_clean_models :: "raw_row list \<Rightarrow> error + model_record list" where
  "validate_and_clean_models models = vcm_loop models [] {}"

section \<open>The run of the script\<close>

text \<open>
  A JSON value as \<^verbatim>\<open>json.loads\<close> returns it. Numbers with a fraction are left out: the script
  tests the payload for truth, asks it for \<^verbatim>\<open>data\<close> and takes a length, and does nothing else
  with it.
\<close>

datatype json = JNull | JBool bool | JInt int | JStr string | JArr "json list"
  | JObj "(string \<times> json) list"

text \<open>
  The levels of the logger.
\<close>

datatype level = DEBUG | INFO | WARNING | ERROR | SUCCESS

text \<open>
  One constructor for each logger call of the script, in the order of the functions
  \<^verbatim>\<open>connect_to_browser\<close>, \<^verbatim>\<open>scrape_openrouter_models\<close>, \<^verbatim>\<open>fetch_openrouter_api_models\<close> and
  \<^verbatim>\<open>main\<close>. The text of a message is not modelled; a count, a name or a position that
  the text shows is an argument.
\<close>

datatype message =
    Connecting | NoBrowserContext | UsingExistingPage | CreatedNewPage | ConnectFailed | ConnectHint
  | CannotConnect | Visiting | VisitFailed | FoundRows | TableNotFound | Extracting | Extracted nat
  | NoJsResult | ScrapeError | Traceback | StopFailed | Total nat
  | VisitingApi | VisitApiFailed | NoApiContent | ApiDataOk | ApiJsonFailed | FetchError
  | Rule | BlankRule | StartScrape | NoModels | Saved nat | SaveFailed
  | StatsHeader | StatTotal nat | StatWithId nat | StatWithContext nat
  | PreviewHeader | PreviewName nat string | PreviewId string | PreviewContext string
  | StartApi | ApiSaved | ApiCount nat | ApiSaveFailed | NoApiData

text \<open>
  What \<^verbatim>\<open>json.dump\<close> wrote: the list of records, or the payload of the API.
\<close>

datatype file_content = Records "model_record list" | Payload json

text \<open>
  What a run does and an observer can see, in order: a call of the logger, the call of one
  of the two top-level operations by \<^verbatim>\<open>main\<close>, \<^verbatim>\<open>os.makedirs\<close>, a file opened for writing
  (created or truncated), and a \<^verbatim>\<open>json.dump\<close> that completed.
\<close>

datatype event =
    Log level message
  | Invoked string
  | MakeDirs string
  | Opened string
  | Dumped string file_content

text \<open>
  How \<^verbatim>\<open>connect_to_browser\<close> ends: an exception before a page is chosen, a browser with
  no context, the first open page, or a new page.
\<close>

datatype connect_outcome = ConnectRaises | NoContexts | ExistingPage | NewPage

text \<open>
  What the world outside the script does during one run: for each operation on the browser
  and on the file system, whether it succeeds and what it returns. \<open>scrape_js_result\<close> is
  what the in-page script returns (\<open>None\<close> when \<^verbatim>\<open>page.evaluate\<close> raises);
  \<open>fetch_content\<close> is the text of the API page (\<open>None\<close> when \<^verbatim>\<open>page.evaluate\<close> raises,
  \<open>Some None\<close> for JavaScript's \<^verbatim>\<open>null\<close>); \<open>json_loads\<close> is \<^verbatim>\<open>json.loads\<close>, with \<open>None\<close> for
  \<^verbatim>\<open>JSONDecodeError\<close>; the page text is empty or \<^verbatim>\<open>null\<close> when \<^verbatim>\<open>not content\<close> holds. Any
  other exception of \<^verbatim>\<open>json.loads\<close> would reach the handler of line 307, which logs other
  lines and returns the same empty object; it is not part of the model, and neither is an
  interrupt from the keyboard.
\<close>

record env =
  scrape_connect :: connect_outcome
  scrape_goto_ok :: bool
  scrape_rows_found :: bool
  scrape_js_result :: "raw_row list option"
  scrape_stop_ok :: bool
  makedirs_ok :: bool
  open_records_ok :: bool
  dump_records_ok :: bool
  fetch_connect :: connect_outcome
  fetch_goto_ok :: bool
  fetch_content :: "string option option"
  json_loads :: "string \<Rightarrow> json option"
  fetch_stop_ok :: bool
  open_payload_ok :: bool
  dump_payload_ok :: bool

text \<open>
  The exit code of the process and the events of the run.
\<close>

record run =
  exit_code :: nat
  events :: "event list"

text \<open>
  The constants of lines 18 to 20 (\<^verbatim>\<open>os.path.join\<close> on a POSIX system).
\<close>

definition OUTPUT_DIR :: string where
  "OUTPUT_DIR = ''data''"

definition OUTPUT_FILE :: string where
  "OUTPUT_FILE = ''data/openrouter-free-text-to-text.json''"

definition OUTPUT_MODELS_FILE :: string where
  "OUTPUT_MODELS_FILE = ''data/openrouter-models.json''"

text \<open>
  The truth value of a payload, as \<^verbatim>\<open>if api_models:\<close> tests it.
\<close>

fun truthy :: "json \<Rightarrow> bool" where
  "truthy JNull = False"
| "truthy (JBool b) = b"
| "truthy (JInt i) = (i \<noteq> 0)"
| "truthy (JStr s) = (s \<noteq> [])"
| "truthy (JArr xs) = (xs \<noteq> [])"
| "truthy (JObj kvs) = (kvs \<noteq> [])"

text \<open>
  \<^verbatim>\<open>api_models.get(k, default)\<close>: only a dict has the method.
\<close>

fun json_get :: "json \<Rightarrow> string \<Rightarrow> json \<Rightarrow> error + json" where
  "json_get (JObj kvs) k dflt = Inr (case map_of kvs k of None \<Rightarrow> dflt | Some v \<Rightarrow> v)"
| "json_get v k dflt = Inl AttributeError"

text \<open>
  \<^verbatim>\<open>len(v)\<close>: defined on strings, lists and dicts.
\<close>

fun json_len :: "json \<Rightarrow> error + nat" where
  "json_len (JStr s) = Inr (length s)"
| "json_len (JArr xs) = Inr (length xs)"
| "json_len (JObj kvs) = Inr (length kvs)"
| "json_len v = Inl TypeError"

text \<open>
  \<^verbatim>\<open>connect_to_browser\<close> (lines 34 to 78): its log lines and whether it returns a page.
  \<^verbatim>\<open>playwright.stop()\<close> on line 53 is taken to succeed; were it to raise, the handler of
  line 70 would add its two error lines to the log, and the function would return no page
  all the same.
\<close>

fun connect_to_browser :: "connect_outcome \<Rightarrow> event list \<times> bool" where
  "connect_to_browser ConnectRaises =
     ([Log INFO Connecting, Log ERROR ConnectFailed, Log ERROR ConnectHint], False)"
| "connect_to_browser NoContexts = ([Log INFO Connecting, Log ERROR NoBrowserContext], False)"
| "connect_to_browser ExistingPage = ([Log INFO Connecting, Log INFO UsingExistingPage], True)"
| "connect_to_browser NewPage = ([Log INFO Connecting, Log INFO CreatedNewPage], True)"

text \<open>
  The \<^verbatim>\<open>finally\<close> block of both operations: a failure to stop is logged as a warning.
\<close>

definition stop_playwright :: "bool \<Rightarrow> event list" where
  "stop_playwright ok = (if ok then [] else [Log WARNING StopFailed])"

text \<open>
  \<^verbatim>\<open>scrape_openrouter_models\<close> (lines 83 to 215). Every exception inside the \<^verbatim>\<open>try\<close> ends in
  the handler of line 201, which logs two errors and returns the empty list; the
  \<^verbatim>\<open>finally\<close> block runs before the last log line.
\<close>

definition scrape_openrouter_models :: "env \<Rightarrow> event list \<times> model_record list" where
  "scrape_openrouter_models e =
     (let (ev, connected) = connect_to_browser (scrape_connect e) in
      if \<not> connected then (ev @ [Log ERROR CannotConnect], [])
      else
        let ev = ev @ [Log INFO Visiting];
            failed = [Log ERROR ScrapeError, Log ERROR Traceback] @ stop_playwright (scrape_stop_ok e)
        in
        if \<not> scrape_goto_ok e then (ev @ [Log ERROR VisitFailed] @ failed, [])
        else
          let ev = ev @ [if scrape_rows_found e then Log DEBUG FoundRows else Log WARNING TableNotFound]
                      @ [Log INFO Extracting]
          in
          case scrape_js_result e of
            None \<Rightarrow> (ev @ failed, [])
          | Some js_result \<Rightarrow>
              if js_result \<noteq> [] then
                (case validate_and_clean_models js_result of
                   Inl exn \<Rightarrow> (ev @ failed, [])
                 | Inr models \<Rightarrow>
                     (ev @ [Log INFO (Extracted (length models))]
                         @ stop_playwright (scrape_stop_ok e)
                         @ [Log INFO (Total (length models))], models))
              else (ev @ [Log WARNING NoJsResult] @ stop_playwright (scrape_stop_ok e), []))"

text \<open>
  \<^verbatim>\<open>fetch_openrouter_api_models\<close> (lines 267 to 317). \<open>JObj []\<close> is the empty object
  \<^verbatim>\<open>{}\<close>.
\<close>

definition fetch_openrouter_api_models :: "env \<Rightarrow> event list \<times> json" where
  "fetch_openrouter_api_models e =
     (let (ev, connected) = connect_to_browser (fetch_connect e) in
      if \<not> connected then (ev @ [Log ERROR CannotConnect], JObj [])
      else
        let ev = ev @ [Log INFO VisitingApi];
            failed = [Log ERROR FetchError, Log ERROR Traceback] @ stop_playwright (fetch_stop_ok e)
        in
        if \<not> fetch_goto_ok e then (ev @ [Log ERROR VisitApiFailed] @ failed, JObj [])
        else
          case fetch_content e of
            None \<Rightarrow> (ev @ failed, JObj [])
          | Some content \<Rightarrow>
              let no_content = (ev @ [Log ERROR NoApiContent] @ stop_playwright (fetch_stop_ok e),
                                JObj [])
              in
              case content of
                None \<Rightarrow> no_content
              | Some text \<Rightarrow>
                  if text = [] then no_content
                  else
                    (case json_loads e text of
                       Some api_data \<Rightarrow>
                         (ev @ [Log INFO ApiDataOk] @ stop_playwright (fetch_stop_ok e), api_data)
                     | None \<Rightarrow>
                         (ev @ [Log ERROR ApiJsonFailed] @ stop_playwright (fetch_stop_ok e),
                          JObj [])))"

text \<open>
  The loop of lines 358 to 365 over the first three records, counted from \<open>i\<close>.
\<close>

fun preview :: "nat \<Rightarrow> model_record list \<Rightarrow> event list" where
  "preview i [] = []"
| "preview i (m # ms) =
     [Log INFO (PreviewName i (rec_model m))]
     @ (if rec_id m \<noteq> [] then [Log INFO (PreviewId (rec_id m))] else [])
     @ (if rec_context m \<noteq> [] then [Log INFO (PreviewContext (rec_context m))] else [])
     @ preview (Suc i) ms"

text \<open>
  Lines 375 to 384 of \<^verbatim>\<open>main\<close>: the \<^verbatim>\<open>try\<close> block that writes the payload, and its
  handler, which logs an error and does not exit.
\<close>

definition save_api_models :: "env \<Rightarrow> json \<Rightarrow> event list" where
  "save_api_models e api_models =
     (if \<not> open_payload_ok e then [Log ERROR ApiSaveFailed]
      else if \<not> dump_payload_ok e then [Opened OUTPUT_MODELS_FILE, Log ERROR ApiSaveFailed]
      else
        let ev = [Opened OUTPUT_MODELS_FILE, Dumped OUTPUT_MODELS_FILE (Payload api_models)] in
        case json_get api_models ''data'' (JArr []) of
          Inl exn \<Rightarrow> ev @ [Log ERROR ApiSaveFailed]
        | Inr data_list \<Rightarrow>
            (case json_len data_list of
               Inl exn \<Rightarrow> ev @ [Log SUCCESS ApiSaved, Log ERROR ApiSaveFailed]
             | Inr n \<Rightarrow> ev @ [Log SUCCESS ApiSaved, Log INFO (ApiCount n)]))"

text \<open>
  \<^verbatim>\<open>main\<close> (lines 320 to 395). \<^verbatim>\<open>sys.exit(1)\<close> ends the run with exit code 1
  (\<^verbatim>\<open>SystemExit\<close> passes the handler of line 391); a run that reaches the end of \<^verbatim>\<open>main\<close>
  exits with code 0. Nothing in the body raises past the inner handlers, so the handler
  of line 391 is never entered.
\<close>

definition main :: "env \<Rightarrow> run" where
  "main e =
     (let ev = [Log INFO Rule, Log INFO StartScrape, Log INFO Rule,
                Invoked ''scrape_openrouter_models''];
          (ev_scrape, models) = scrape_openrouter_models e;
          ev = ev @ ev_scrape
      in
      if models = [] then \<lparr>exit_code = 1, events = ev @ [Log WARNING NoModels]\<rparr>
      else if \<not> makedirs_ok e then \<lparr>exit_code = 1, events = ev @ [Log ERROR SaveFailed]\<rparr>
      else if \<not> open_records_ok e
        then \<lparr>exit_code = 1, events = ev @ [MakeDirs OUTPUT_DIR, Log ERROR SaveFailed]\<rparr>
      else if \<not> dump_records_ok e
        then \<lparr>exit_code = 1,
              events = ev @ [MakeDirs OUTPUT_DIR, Opened OUTPUT_FILE, Log ERROR SaveFailed]\<rparr>
      else
        let ev = ev @ [MakeDirs OUTPUT_DIR, Opened OUTPUT_FILE, Dumped OUTPUT_FILE (Records models),
                       Log SUCCESS (Saved (length models))];
            ev = ev @ [Log INFO BlankRule, Log INFO StatsHeader,
                       Log INFO (StatTotal (length models)),
                       Log INFO (StatWithId (length (filter (\<lambda>m. rec_id m \<noteq> []) models))),
                       Log INFO (StatWithContext (length (filter (\<lambda>m. rec_context m \<noteq> []) models))),
                       Log INFO Rule];
            ev = ev @ [Log INFO PreviewHeader] @ preview 1 (take 3 models);
            ev = ev @ [Log INFO BlankRule, Log INFO StartApi, Log INFO Rule,
                       Invoked ''fetch_openrouter_api_models''];
            (ev_fetch, api_models) = fetch_openrouter_api_models e;
            ev = ev @ ev_fetch
        in
        if truthy api_models then \<lparr>exit_code = 0, events = ev @ save_api_models e api_models\<rparr>
        else \<lparr>exit_code = 0, events = ev @ [Log WARNING NoApiData]\<rparr>)"

section \<open>Notions used to state the properties\<close>

text \<open>
  \<^verbatim>\<open>isinstance(v, str)\<close>.
\<close>

definition is_str :: "pyval \<Rightarrow> bool" where
  "is_str v = (case v of PStr s \<Rightarrow> True | _ \<Rightarrow> False)"

text \<open>
  \<^verbatim>\<open>isinstance(model, dict)\<close> (line 232).
\<close>

definition is_dict :: "raw_row \<Rightarrow> bool" where
  "is_dict row = (case row of Dict d \<Rightarrow> True | NonDict v \<Rightarrow> False)"

text \<open>
  A row on which the loop body raises: a dict whose \<^verbatim>\<open>model\<close> or \<^verbatim>\<open>id\<close> value is not a
  \<^verbatim>\<open>str\<close>, so that \<^verbatim>\<open>.strip()\<close> (lines 235 and 236) fails.
\<close>

definition raises :: "raw_row \<Rightarrow> bool" where
  "raises row =
     (case row of
        NonDict v \<Rightarrow> False
      | Dict d \<Rightarrow> \<not> (is_str (dict_get d ''model'' (PStr [])) \<and> is_str (dict_get d ''id'' (PStr []))))"

text \<open>
  The record that lines 235 to 262 build from one row, leaving the test against
  \<^verbatim>\<open>seen_models\<close> out: \<open>None\<close> for a row that is no dict, that raises, or whose name and
  id are both empty.
\<close>

definition row_record :: "raw_row \<Rightarrow> model_record option" where
  "row_record row =
     (case row of
        NonDict v \<Rightarrow> None
      | Dict d \<Rightarrow>
          (case strip_attr (dict_get d ''model'' (PStr [])) of
             Inl e \<Rightarrow> None
           | Inr model_name \<Rightarrow>
          (case strip_attr (dict_get d ''id'' (PStr [])) of
             Inl e \<Rightarrow> None
           | Inr model_id \<Rightarrow>
               if model_name = [] \<and> model_id = [] then None
               else Some \<lparr>rec_model = py_or model_name model_id, rec_id = model_id,
                      rec_context = clean_context (dict_get d ''context'' (PStr []))\<rparr>)))"

text \<open>
  The records of the rows of a list, in the order of the rows.
\<close>

definition candidates :: "raw_row list \<Rightarrow> model_record list" where
  "candidates models = List.map_filter row_record models"

text \<open>
  The dedup key of a record: its lower-cased id when the id is not empty, else its
  lower-cased model name.
\<close>

definition dedup_key :: "model_record \<Rightarrow> string" where
  "dedup_key r = py_lower (py_or (rec_id r) (rec_model r))"

text \<open>
  The records whose key is not in \<open>seen\<close> and not the key of an earlier record of the list.
\<close>

fun keep_first :: "string set \<Rightarrow> model_record list \<Rightarrow> model_record list" where
  "keep_first seen [] = []"
| "keep_first seen (r # rs) =
     (if dedup_key r \<in> seen then keep_first seen rs
      else r # keep_first (insert (dedup_key r) seen) rs)"

text \<open>
  A string that neither starts nor ends with white space.
\<close>

definition stripped :: "string \<Rightarrow> bool" where
  "stripped s = (s = [] \<or> (\<not> py_isspace (hd s) \<and> \<not> py_isspace (last s)))"

text \<open>
  \<open>run\<close> is the first maximal run of digits of \<open>s\<close>: no digit stands before it, it is
  not empty and all digits, and what follows it does not start with a digit.
\<close>

definition first_digit_run :: "string \<Rightarrow> string \<Rightarrow> bool" where
  "first_digit_run s run =
     (\<exists>pre post. s = pre @ run @ post \<and> run \<noteq> [] \<and>
        (\<forall>c\<in>set pre. \<not> py_isdigit c) \<and> (\<forall>c\<in>set run. py_isdigit c) \<and>
        (post = [] \<or> \<not> py_isdigit (hd post)))"

text \<open>
  The dict that lines 258 to 262 append for a record: the output read as an input row.
\<close>

definition emitted_dict :: "model_record \<Rightarrow> raw_row" where
  "emitted_dict r =
     Dict [''model'' \<mapsto> PStr (rec_model r), ''id'' \<mapsto> PStr (rec_id r),
           ''context'' \<mapsto> PStr (rec_context r)]"

text \<open>
  What every emitted record satisfies: name and id are trimmed, the name is not empty and
  the context is made of digits.
\<close>

definition normal_record :: "model_record \<Rightarrow> bool" where
  "normal_record r =
     (stripped (rec_model r) \<and> stripped (rec_id r) \<and> rec_model r \<noteq> [] \<and>
      list_all py_isdigit (rec_context r))"

text \<open>
  An event that is a log line.
\<close>

definition is_log :: "event \<Rightarrow> bool" where
  "is_log ev = (case ev of Log l m \<Rightarrow> True | _ \<Rightarrow> False)"

text \<open>
  An event that touches the file system.
\<close>

definition is_file_event :: "event \<Rightarrow> bool" where
  "is_file_event ev =
     (case ev of MakeDirs p \<Rightarrow> True | Opened p \<Rightarrow> True | Dumped p c \<Rightarrow> True | _ \<Rightarrow> False)"

text \<open>
  The log line that reports the number of models of the API.
\<close>

definition is_api_count :: "event \<Rightarrow> bool" where
  "is_api_count ev = (case ev of Log l (ApiCount n) \<Rightarrow> True | _ \<Rightarrow> False)"

section \<open>Example inputs\<close>

text \<open>
  Scenario A of the specification.
\<close>

definition scenario_a :: "raw_row list" where
  "scenario_a =
     [Dict [''model'' \<mapsto> PStr ''GPT-X'', ''id'' \<mapsto> PStr ''openai/gpt-x'',
            ''context'' \<mapsto> PStr ''128,000''],
      Dict [''model'' \<mapsto> PStr '''', ''id'' \<mapsto> PStr ''openai/gpt-x'',
            ''context'' \<mapsto> PStr '''']]"

text \<open>
  The rows of scenario A as \<^verbatim>\<open>scrape_openrouter_models\<close> passes them on line 195: the in-page
  script has removed the comma of the context (line 169).
\<close>

definition scenario_a_as_scraped :: "raw_row list" where
  "scenario_a_as_scraped =
     [Dict [''model'' \<mapsto> PStr ''GPT-X'', ''id'' \<mapsto> PStr ''openai/gpt-x'',
            ''context'' \<mapsto> PStr ''128000''],
      Dict [''model'' \<mapsto> PStr '''', ''id'' \<mapsto> PStr ''openai/gpt-x'',
            ''context'' \<mapsto> PStr '''']]"

text \<open>
  Scenario B of the specification.
\<close>

definition scenario_b :: "raw_row list" where
  "scenario_b =
     [Dict [''model'' \<mapsto> PStr '''', ''id'' \<mapsto> PStr '''', ''context'' \<mapsto> PStr ''1000'']]"

text \<open>
  Four rows: the third has the key of the first (its id differs in case and in white
  space), the second is no dict, the fourth has a name only.
\<close>

definition dedup_example :: "raw_row list" where
  "dedup_example =
     [Dict [''model'' \<mapsto> PStr ''First'', ''id'' \<mapsto> PStr ''x/A'', ''context'' \<mapsto> PStr ''1''],
      NonDict PNone,
      Dict [''model'' \<mapsto> PStr ''Second'', ''id'' \<mapsto> PStr '' X/a '', ''context'' \<mapsto> PStr ''2''],
      Dict [''model'' \<mapsto> PStr ''Y'']]"

text \<open>
  The records of the first and of the fourth row.
\<close>

definition dedup_example_out :: "model_record list" where
  "dedup_example_out =
     [\<lparr>rec_model = ''First'', rec_id = ''x/A'', rec_context = ''1''\<rparr>,
      \<lparr>rec_model = ''Y'', rec_id = [], rec_context = []\<rparr>]"

text \<open>
  A row whose context holds two runs of digits.
\<close>

definition context_example :: "string \<rightharpoonup> pyval" where
  "context_example = [''model'' \<mapsto> PStr ''M'', ''context'' \<mapsto> PStr '' ctx 128,000 tokens '']"

text \<open>
  The text \<^verbatim>\<open>{"data": []}\<close>.
\<close>

definition api_text :: string where
  "api_text = ''{'' @ [CHR 0x22] @ ''data'' @ [CHR 0x22] @ '': []}''"

text \<open>
  A run in which everything succeeds: the page gives the rows of scenario A, the API gives
  \<open>api_text\<close>, which parses to an object with an empty \<^verbatim>\<open>data\<close> list.
\<close>

definition env_ok :: env where
  "env_ok =
     \<lparr>scrape_connect = ExistingPage, scrape_goto_ok = True, scrape_rows_found = True,
      scrape_js_result = Some scenario_a, scrape_stop_ok = True,
      makedirs_ok = True, open_records_ok = True, dump_records_ok = True,
      fetch_connect = NewPage, fetch_goto_ok = True,
      fetch_content = Some (Some api_text),
      json_loads = (\<lambda>s. if s = api_text then Some (JObj [(''data'', JArr [])]) else None),
      fetch_stop_ok = True, open_payload_ok = True, dump_payload_ok = True\<rparr>"

text \<open>
  The same run, but the API page has no text.
\<close>

definition env_empty_api_text :: env where
  "env_empty_api_text = env_ok\<lparr>fetch_content := Some (Some [])\<rparr>"

text \<open>
  The same run, but the payload file cannot be opened for writing.
\<close>

definition env_payload_write_fails :: env where
  "env_payload_write_fails = env_ok\<lparr>open_payload_ok := False\<rparr>"

text \<open>
  The same run, but the record file cannot be opened for writing.
\<close>

definition env_records_write_fails :: env where
  "env_records_write_fails = env_ok\<lparr>open_records_ok := False\<rparr>"

text \<open>
  The same run, but the page has no table row.
\<close>

definition env_no_rows :: env where
  "env_no_rows = env_ok\<lparr>scrape_rows_found := False, scrape_js_result := Some []\<rparr>"

section \<open>Evaluation\<close>

lemmas eval_simps =
  validate_and_clean_models_def dict_get_def py_strip_def py_isspace_def py_or_def
  py_lower_def py_lower_char_def re_search_digits_def py_isdigit_def clean_context_def
  char_of_def bit_0

lemma dedup_example_eval: "validate_and_clean_models dedup_example = Inr dedup_example_out"
  by (simp add: dedup_example_def dedup_example_out_def eval_simps)

section \<open>Strings\<close>

lemma py_lower_Nil_iff [simp]: "py_lower s = [] \<longleftrightarrow> s = []"
  by (simp add: py_lower_def)

lemma digit_not_space: "py_isdigit c \<Longrightarrow> \<not> py_isspace c"
  by (simp add: py_isdigit_def py_isspace_def Let_def)

lemma last_dropWhile: "dropWhile P xs \<noteq> [] \<Longrightarrow> last (dropWhile P xs) = last xs"
  by (metis last_appendR takeWhile_dropWhile_id)

lemma stripped_py_strip: "stripped (py_strip s)"
proof (cases "py_strip s = []")
  case True
  then show ?thesis by (simp add: stripped_def)
next
  case False
  let ?u = "dropWhile py_isspace s"
  let ?v = "dropWhile py_isspace (rev ?u)"
  from False have v: "?v \<noteq> []" by (simp add: py_strip_def)
  have u: "?u \<noteq> []"
  proof
    assume e: "?u = []"
    have "?v = []" by (simp only: e rev.simps dropWhile.simps)
    with v show False by simp
  qed
  from v have "\<not> py_isspace (hd ?v)" by (rule hd_dropWhile)
  then have l: "\<not> py_isspace (last (py_strip s))"
    using v by (simp add: py_strip_def last_rev)
  from u have "\<not> py_isspace (hd ?u)" by (rule hd_dropWhile)
  moreover have "hd (py_strip s) = hd ?u"
    using v u by (simp add: py_strip_def hd_rev last_dropWhile last_rev)
  ultimately show ?thesis using l by (simp add: stripped_def)
qed

lemma py_strip_stripped: "stripped s \<Longrightarrow> py_strip s = s"
proof -
  assume a: "stripped s"
  then have 1: "dropWhile py_isspace s = s"
    by (auto simp: stripped_def dropWhile_eq_self_iff)
  from a have 2: "dropWhile py_isspace (rev s) = rev s"
    by (auto simp: stripped_def dropWhile_eq_self_iff hd_rev)
  show ?thesis by (simp add: py_strip_def 1 2)
qed

lemma py_strip_idem: "py_strip (py_strip s) = py_strip s"
  by (rule py_strip_stripped) (rule stripped_py_strip)



lemma all_digits_stripped: "\<forall>c\<in>set s. py_isdigit c \<Longrightarrow> stripped s"
  by (cases s) (auto simp: stripped_def dest: digit_not_space)


lemma re_search_digits_Some:
  assumes "re_search_digits s = Some g"
  shows "first_digit_run s g"
proof -
  let ?pre = "takeWhile (\<lambda>c. \<not> py_isdigit c) s"
  let ?rest = "dropWhile (\<lambda>c. \<not> py_isdigit c) s"
  let ?post = "dropWhile py_isdigit ?rest"
  from assms have rest: "?rest \<noteq> []" and g: "g = takeWhile py_isdigit ?rest"
    by (auto simp: re_search_digits_def Let_def split: if_splits)
  have "s = ?pre @ g @ ?post" by (simp add: g)
  moreover from hd_dropWhile[OF rest] have "py_isdigit (hd ?rest)" by simp
  with rest have "g \<noteq> []" unfolding g by (cases ?rest) auto
  moreover have "\<forall>c\<in>set ?pre. \<not> py_isdigit c" by (auto dest: set_takeWhileD)
  moreover have "\<forall>c\<in>set g. py_isdigit c" unfolding g by (auto dest: set_takeWhileD)
  moreover have "?post = [] \<or> \<not> py_isdigit (hd ?post)"
    using hd_dropWhile[of py_isdigit ?rest] by blast
  ultimately show ?thesis unfolding first_digit_run_def by blast
qed

lemma re_search_digits_complete:
  assumes "first_digit_run s g"
  shows "re_search_digits s = Some g"
proof -
  from assms obtain pre post where s: "s = pre @ g @ post" and g: "g \<noteq> []"
    and pre: "\<forall>c\<in>set pre. \<not> py_isdigit c" and dg: "\<forall>c\<in>set g. py_isdigit c"
    and post: "post = [] \<or> \<not> py_isdigit (hd post)"
    unfolding first_digit_run_def by blast
  from g dg have hg: "py_isdigit (hd g)" by (cases g) auto
  have "dropWhile (\<lambda>c. \<not> py_isdigit c) s = dropWhile (\<lambda>c. \<not> py_isdigit c) (g @ post)"
    unfolding s using pre by (simp add: dropWhile_append2)
  also have "\<dots> = g @ post" using g hg by (cases g) auto
  finally have 1: "dropWhile (\<lambda>c. \<not> py_isdigit c) s = g @ post" .
  have "takeWhile py_isdigit (g @ post) = g @ takeWhile py_isdigit post"
    using dg by (simp add: takeWhile_append2)
  also have "takeWhile py_isdigit post = []"
    using post by (cases post) auto
  finally have 2: "takeWhile py_isdigit (g @ post) = g" by simp
  show ?thesis using g by (simp add: re_search_digits_def 1 2)
qed

lemma re_search_digits_all_digits:
  assumes "s \<noteq> []" and "\<forall>c\<in>set s. py_isdigit c"
  shows "re_search_digits s = Some s"
proof (rule re_search_digits_complete)
  have "s = [] @ s @ []" by simp
  with assms show "first_digit_run s s"
    unfolding first_digit_run_def by (intro exI[of _ "[]"] conjI) simp_all
qed

lemma clean_context_digits: "c \<in> set (clean_context v) \<Longrightarrow> py_isdigit c"
proof (cases "re_search_digits (py_strip (py_str v))")
  case None
  assume "c \<in> set (clean_context v)"
  with None show ?thesis by (simp add: clean_context_def Let_def split: if_splits)
next
  case (Some g)
  assume c: "c \<in> set (clean_context v)"
  from re_search_digits_Some[OF Some] have "\<forall>c\<in>set g. py_isdigit c"
    unfolding first_digit_run_def by blast
  with c Some show ?thesis by (simp add: clean_context_def Let_def split: if_splits)
qed

lemma clean_context_fixed:
  assumes "\<forall>c\<in>set s. py_isdigit c"
  shows "clean_context (PStr s) = s"
proof (cases "s = []")
  case True
  then show ?thesis by (simp add: clean_context_def py_strip_def)
next
  case False
  have "py_strip s = s" using assms by (intro py_strip_stripped all_digits_stripped)
  with False assms show ?thesis
    by (simp add: clean_context_def re_search_digits_all_digits)
qed


section \<open>The loop\<close>

lemma candidates_simps [simp]:
  "candidates [] = []"
  "candidates (row # rows) =
     (case row_record row of None \<Rightarrow> candidates rows | Some r \<Rightarrow> r # candidates rows)"
  by (simp_all add: candidates_def List.map_filter_simps split: option.splits)

lemma vcm_loop_raises:
  "\<exists>row \<in> set models. raises row \<Longrightarrow> vcm_loop models acc seen = Inl AttributeError"
proof (induction models arbitrary: acc seen)
  case Nil
  then show ?case by simp
next
  case (Cons row models)
  show ?case
  proof (cases row)
    case (NonDict v)
    with Cons show ?thesis by (simp add: raises_def)
  next
    case (Dict d)
    show ?thesis
    proof (cases "raises (Dict d)")
      case True
      then show ?thesis
        unfolding Dict raises_def
        by (cases "dict_get d ''model'' (PStr [])"; cases "dict_get d ''id'' (PStr [])")
           (simp_all add: is_str_def)
    next
      case False
      with Cons.prems Dict have rest: "\<exists>row \<in> set models. raises row" by auto
      from False obtain m i where
        mi: "dict_get d ''model'' (PStr []) = PStr m" "dict_get d ''id'' (PStr []) = PStr i"
        by (auto simp: raises_def is_str_def split: pyval.splits)
      show ?thesis
        unfolding Dict using Cons.IH[OF rest] mi by (simp add: Let_def)
    qed
  qed
qed

lemma vcm_loop_ok:
  "\<forall>row \<in> set models. \<not> raises row \<Longrightarrow>
   vcm_loop models acc seen = Inr (acc @ keep_first seen (candidates models))"
proof (induction models arbitrary: acc seen)
  case Nil
  then show ?case by simp
next
  case (Cons row models)
  from Cons.prems have rest: "\<forall>row \<in> set models. \<not> raises row" by simp
  show ?case
  proof (cases row)
    case (NonDict v)
    then show ?thesis using Cons.IH[OF rest] by (simp add: row_record_def)
  next
    case (Dict d)
    with Cons.prems obtain m i where
      mi: "dict_get d ''model'' (PStr []) = PStr m" "dict_get d ''id'' (PStr []) = PStr i"
      by (auto simp: raises_def is_str_def split: pyval.splits)
    show ?thesis
      unfolding Dict using Cons.IH[OF rest] mi
      by (simp add: Let_def row_record_def dedup_key_def py_or_def)
  qed
qed

lemma validate_Inl_iff:
  "validate_and_clean_models L = Inl AttributeError \<longleftrightarrow> (\<exists>row\<in>set L. raises row)"
proof (cases "\<exists>row\<in>set L. raises row")
  case True
  then show ?thesis
    by (simp add: validate_and_clean_models_def vcm_loop_raises)
next
  case False
  then have "\<forall>row\<in>set L. \<not> raises row" by simp
  from vcm_loop_ok[OF this] False show ?thesis
    by (simp add: validate_and_clean_models_def)
qed

lemma validate_Inr_iff:
  "validate_and_clean_models L = Inr out \<longleftrightarrow>
     (\<forall>row\<in>set L. \<not> raises row) \<and> out = keep_first {} (candidates L)"
proof (cases "\<exists>row\<in>set L. raises row")
  case True
  then show ?thesis
    by (auto simp: validate_and_clean_models_def vcm_loop_raises)
next
  case False
  then have "\<forall>row\<in>set L. \<not> raises row" by simp
  from vcm_loop_ok[OF this, of "[]" "{}"] False show ?thesis
    by (auto simp: validate_and_clean_models_def)
qed

lemma set_candidates: "set (candidates L) = {r. \<exists>row\<in>set L. row_record row = Some r}"
  by (induction L) (auto split: option.splits)

lemma row_record_SomeD:
  assumes "row_record row = Some r"
  obtains d m i where "row = Dict d"
    and "dict_get d ''model'' (PStr []) = PStr m" and "dict_get d ''id'' (PStr []) = PStr i"
    and "py_strip m \<noteq> [] \<or> py_strip i \<noteq> []"
    and "r = \<lparr>rec_model = py_or (py_strip m) (py_strip i), rec_id = py_strip i,
               rec_context = clean_context (dict_get d ''context'' (PStr []))\<rparr>"
proof (cases row)
  case (NonDict v)
  with assms show ?thesis by (simp add: row_record_def)
next
  case (Dict d)
  from assms obtain m where m: "dict_get d ''model'' (PStr []) = PStr m"
    by (cases "dict_get d ''model'' (PStr [])") (simp_all add: Dict row_record_def)
  from assms m obtain i where i: "dict_get d ''id'' (PStr []) = PStr i"
    by (cases "dict_get d ''id'' (PStr [])") (simp_all add: Dict row_record_def)
  from assms m i have ne: "py_strip m \<noteq> [] \<or> py_strip i \<noteq> []"
    by (auto simp: Dict row_record_def split: if_splits)
  from assms m i have "r = \<lparr>rec_model = py_or (py_strip m) (py_strip i), rec_id = py_strip i,
               rec_context = clean_context (dict_get d ''context'' (PStr []))\<rparr>"
    by (auto simp: Dict row_record_def split: if_splits)
  with that[OF Dict m i ne] show ?thesis .
qed

lemma candidate_normal:
  assumes "row_record row = Some r"
  shows "normal_record r"
proof -
  from assms obtain d m i where ne: "py_strip m \<noteq> [] \<or> py_strip i \<noteq> []"
    and r: "r = \<lparr>rec_model = py_or (py_strip m) (py_strip i), rec_id = py_strip i,
               rec_context = clean_context (dict_get d ''context'' (PStr []))\<rparr>"
    by (rule row_record_SomeD)
  show ?thesis
    unfolding normal_record_def r using ne
    by (auto simp: py_or_def stripped_py_strip list_all_iff clean_context_digits)
qed

lemma vcm_loop_drop_empty_row:
  assumes "strip_attr (dict_get d ''model'' (PStr [])) = Inr []"
    and "strip_attr (dict_get d ''id'' (PStr [])) = Inr []"
  shows "vcm_loop (pre @ Dict d # post) acc seen = vcm_loop (pre @ post) acc seen"
proof (induction pre arbitrary: acc seen)
  case Nil
  from assms show ?case by simp
next
  case (Cons row pre)
  show ?case
  proof (cases row)
    case (NonDict v)
    then show ?thesis using Cons.IH by simp
  next
    case (Dict e)
    then show ?thesis using Cons.IH
      by (simp add: Let_def split: sum.splits)
  qed
qed

lemma vcm_loop_filter_is_dict:
  "vcm_loop (filter is_dict L) acc seen = vcm_loop L acc seen"
proof (induction L arbitrary: acc seen)
  case Nil
  show ?case by simp
next
  case (Cons row L)
  show ?case
  proof (cases row)
    case (NonDict v)
    then show ?thesis using Cons.IH by (simp add: is_dict_def)
  next
    case (Dict e)
    then show ?thesis using Cons.IH
      by (simp add: is_dict_def Let_def split: sum.splits)
  qed
qed

section \<open>First occurrences\<close>

lemma keep_first_keys_fresh: "r \<in> set (keep_first seen rs) \<Longrightarrow> dedup_key r \<notin> seen"
  by (induction rs arbitrary: seen) (auto split: if_splits)

lemma keep_first_subset: "set (keep_first seen rs) \<subseteq> set rs"
  by (induction rs arbitrary: seen) (auto split: if_splits)

lemma keep_first_distinct: "distinct (map dedup_key (keep_first seen rs))"
  by (induction rs arbitrary: seen) (auto dest: keep_first_keys_fresh)

lemma keep_first_find:
  "r \<in> set (keep_first seen rs) \<Longrightarrow> find (\<lambda>c. dedup_key c = dedup_key r) rs = Some r"
proof (induction rs arbitrary: seen)
  case Nil
  then show ?case by simp
next
  case (Cons c rs)
  show ?case
  proof (cases "dedup_key c \<in> seen")
    case True
    with Cons.prems have mem: "r \<in> set (keep_first seen rs)" by simp
    from keep_first_keys_fresh[OF mem] True have "dedup_key c \<noteq> dedup_key r" by auto
    with Cons.IH[OF mem] show ?thesis by simp
  next
    case False
    with Cons.prems consider "r = c" | "r \<in> set (keep_first (insert (dedup_key c) seen) rs)"
      by auto
    then show ?thesis
    proof cases
      case 1
      then show ?thesis by simp
    next
      case 2
      from keep_first_keys_fresh[OF 2] have "dedup_key c \<noteq> dedup_key r" by auto
      with Cons.IH[OF 2] show ?thesis by simp
    qed
  qed
qed

lemma remdups_snoc: "remdups (xs @ [k]) = filter (\<lambda>x. x \<noteq> k) (remdups xs) @ [k]"
  by (induction xs) auto

lemma first_order_Cons:
  "rev (remdups (rev (k # ks))) = k # filter (\<lambda>x. x \<noteq> k) (rev (remdups (rev ks)))"
  by (simp add: remdups_snoc rev_filter)

lemma keep_first_keys:
  "map dedup_key (keep_first seen rs) =
   filter (\<lambda>k. k \<notin> seen) (rev (remdups (rev (map dedup_key rs))))"
proof (induction rs arbitrary: seen)
  case Nil
  then show ?case by simp
next
  case (Cons c rs)
  have "filter (\<lambda>k. k \<notin> seen) (rev (remdups (rev (map dedup_key (c # rs))))) =
        filter (\<lambda>k. k \<notin> seen)
          (dedup_key c # filter (\<lambda>x. x \<noteq> dedup_key c) (rev (remdups (rev (map dedup_key rs)))))"
    using first_order_Cons[of "dedup_key c" "map dedup_key rs"] by simp
  also have "\<dots> = map dedup_key (keep_first seen (c # rs))"
  proof (cases "dedup_key c \<in> seen")
    case True
    have "filter (\<lambda>k. k \<notin> seen) (filter (\<lambda>x. x \<noteq> dedup_key c) (rev (remdups (rev (map dedup_key rs)))))
        = filter (\<lambda>k. k \<notin> seen) (rev (remdups (rev (map dedup_key rs))))"
      using True by (auto intro: filter_cong)
    with True Cons.IH[of seen] show ?thesis by simp
  next
    case False
    have "filter (\<lambda>k. k \<notin> seen) (filter (\<lambda>x. x \<noteq> dedup_key c) (rev (remdups (rev (map dedup_key rs)))))
        = filter (\<lambda>k. k \<notin> insert (dedup_key c) seen) (rev (remdups (rev (map dedup_key rs))))"
      by (auto intro: filter_cong)
    with False Cons.IH[of "insert (dedup_key c) seen"] show ?thesis by simp
  qed
  finally show ?case by simp
qed

lemma keep_first_fixed:
  "distinct (map dedup_key rs) \<Longrightarrow> \<forall>r\<in>set rs. dedup_key r \<notin> seen \<Longrightarrow> keep_first seen rs = rs"
proof (induction rs arbitrary: seen)
  case Nil
  show ?case by simp
next
  case (Cons r rs)
  from Cons.prems have "\<forall>x\<in>set rs. dedup_key x \<notin> insert (dedup_key r) seen"
    by (metis distinct.simps(2) image_eqI insert_iff list.set_intros(2) list.simps(9) set_map)
  with Cons.prems have "keep_first (insert (dedup_key r) seen) rs = rs"
    by (intro Cons.IH) simp_all
  with Cons.prems show ?case by simp
qed

section \<open>The output read as input\<close>

lemma emitted_dict_not_raises: "\<not> raises (emitted_dict r)"
  by (simp add: raises_def emitted_dict_def dict_get_def is_str_def)

lemma row_record_emitted_dict:
  assumes "normal_record r"
  shows "row_record (emitted_dict r) = Some r"
proof -
  from assms have m: "py_strip (rec_model r) = rec_model r" and i: "py_strip (rec_id r) = rec_id r"
    and ne: "rec_model r \<noteq> []" and c: "clean_context (PStr (rec_context r)) = rec_context r"
    by (simp_all add: normal_record_def py_strip_stripped clean_context_fixed list_all_iff)
  show ?thesis
    by (simp add: row_record_def emitted_dict_def dict_get_def m i ne c py_or_def)
qed

lemma candidates_emitted:
  "\<forall>r\<in>set rs. normal_record r \<Longrightarrow> candidates (map emitted_dict rs) = rs"
  by (induction rs) (simp_all add: row_record_emitted_dict)

section \<open>The events of a run\<close>

lemmas main_simps =
  main_def scrape_openrouter_models_def fetch_openrouter_api_models_def save_api_models_def
  stop_playwright_def OUTPUT_DIR_def OUTPUT_FILE_def OUTPUT_MODELS_FILE_def

lemma connect_events_log: "\<forall>ev\<in>set (fst (connect_to_browser c)). is_log ev"
  by (cases c) (simp_all add: is_log_def)

lemma stop_events_log: "\<forall>ev\<in>set (stop_playwright ok). is_log ev"
  by (simp add: stop_playwright_def is_log_def)

lemma scrape_events_log: "\<forall>ev\<in>set (fst (scrape_openrouter_models e)). is_log ev"
  using connect_events_log[of "scrape_connect e"] stop_events_log[of "scrape_stop_ok e"]
  by (auto simp: scrape_openrouter_models_def Let_def is_log_def
      split: prod.splits option.splits sum.splits if_splits)

lemma fetch_events_log: "\<forall>ev\<in>set (fst (fetch_openrouter_api_models e)). is_log ev"
  using connect_events_log[of "fetch_connect e"] stop_events_log[of "fetch_stop_ok e"]
  by (auto simp: fetch_openrouter_api_models_def Let_def is_log_def
      split: prod.splits option.splits sum.splits if_splits)

lemma preview_events_log: "\<forall>ev\<in>set (preview i ms). is_log ev"
  by (induction ms arbitrary: i) (auto simp: is_log_def)

lemma log_not_file_event: "is_log ev \<Longrightarrow> \<not> is_file_event ev"
  by (cases ev) (simp_all add: is_log_def is_file_event_def)

lemma filter_file_events_logs: "\<forall>ev\<in>set evs. is_log ev \<Longrightarrow> filter is_file_event evs = []"
  by (induction evs) (simp_all add: log_not_file_event)

lemma main_no_models:
  assumes "snd (scrape_openrouter_models e) = []"
  shows "main e = \<lparr>exit_code = 1,
           events = [Log INFO Rule, Log INFO StartScrape, Log INFO Rule,
                     Invoked ''scrape_openrouter_models'']
                    @ fst (scrape_openrouter_models e) @ [Log WARNING NoModels]\<rparr>"
proof -
  obtain evs ms where s: "scrape_openrouter_models e = (evs, ms)"
    by (cases "scrape_openrouter_models e")
  with assms have "ms = []" by simp
  with s show ?thesis by (simp add: main_def)
qed

lemma connect_no_api_count: "\<forall>ev\<in>set (fst (connect_to_browser c)). \<not> is_api_count ev"
  by (cases c) (simp_all add: is_api_count_def)

lemma stop_no_api_count: "\<forall>ev\<in>set (stop_playwright ok). \<not> is_api_count ev"
  by (simp add: stop_playwright_def is_api_count_def)

lemma scrape_no_api_count: "\<forall>ev\<in>set (fst (scrape_openrouter_models e)). \<not> is_api_count ev"
  using connect_no_api_count[of "scrape_connect e"] stop_no_api_count[of "scrape_stop_ok e"]
  by (auto simp: scrape_openrouter_models_def Let_def is_api_count_def
      split: prod.splits option.splits sum.splits if_splits)

lemma fetch_no_api_count: "\<forall>ev\<in>set (fst (fetch_openrouter_api_models e)). \<not> is_api_count ev"
  using connect_no_api_count[of "fetch_connect e"] stop_no_api_count[of "fetch_stop_ok e"]
  by (auto simp: fetch_openrouter_api_models_def Let_def is_api_count_def
      split: prod.splits option.splits sum.splits if_splits)

lemma preview_no_api_count: "\<forall>ev\<in>set (preview i ms). \<not> is_api_count ev"
  by (induction ms arbitrary: i) (auto simp: is_api_count_def)

lemma fetch_empty_or_invalid:
  assumes "fetch_content e = Some (Some text)" and "text = [] \<or> json_loads e text = None"
  shows "snd (fetch_openrouter_api_models e) = JObj []"
  using assms by (auto simp: fetch_openrouter_api_models_def Let_def split: prod.splits)

lemma payload_file_needs_truthy:
  assumes "Dumped OUTPUT_MODELS_FILE c \<in> set (events (main e))
           \<or> Opened OUTPUT_MODELS_FILE \<in> set (events (main e))"
  shows "truthy (snd (fetch_openrouter_api_models e))"
proof -
  obtain evs ms where s: "scrape_openrouter_models e = (evs, ms)"
    by (cases "scrape_openrouter_models e")
  obtain evf api where f: "fetch_openrouter_api_models e = (evf, api)"
    by (cases "fetch_openrouter_api_models e")
  have l: "\<forall>ev\<in>set evs. is_log ev" "\<forall>ev\<in>set evf. is_log ev"
    "\<forall>ev\<in>set (preview 1 (take 3 ms)). is_log ev"
    using scrape_events_log[of e] fetch_events_log[of e] preview_events_log s f by simp_all
  show ?thesis
    using assms l unfolding s f main_def Let_def
    by (auto simp: s f is_log_def OUTPUT_FILE_def OUTPUT_MODELS_FILE_def split: if_splits)
qed

lemma payload_file_content:
  assumes "Dumped OUTPUT_MODELS_FILE c \<in> set (events (main e))"
  shows "c = Payload (snd (fetch_openrouter_api_models e))"
proof -
  obtain evs ms where s: "scrape_openrouter_models e = (evs, ms)"
    by (cases "scrape_openrouter_models e")
  obtain evf api where f: "fetch_openrouter_api_models e = (evf, api)"
    by (cases "fetch_openrouter_api_models e")
  have l: "\<forall>ev\<in>set evs. is_log ev" "\<forall>ev\<in>set evf. is_log ev"
    "\<forall>ev\<in>set (preview 1 (take 3 ms)). is_log ev"
    using scrape_events_log[of e] fetch_events_log[of e] preview_events_log s f by simp_all
  show ?thesis
    using assms l unfolding main_def Let_def
    by (auto simp: s f is_log_def save_api_models_def Let_def OUTPUT_FILE_def
        OUTPUT_MODELS_FILE_def split: if_splits sum.splits)
qed

lemma api_count_needs_truthy:
  assumes "Log l (ApiCount n) \<in> set (events (main e))"
  shows "truthy (snd (fetch_openrouter_api_models e))"
proof -
  obtain evs ms where s: "scrape_openrouter_models e = (evs, ms)"
    by (cases "scrape_openrouter_models e")
  obtain evf api where f: "fetch_openrouter_api_models e = (evf, api)"
    by (cases "fetch_openrouter_api_models e")
  have l: "\<forall>ev\<in>set evs. \<not> is_api_count ev" "\<forall>ev\<in>set evf. \<not> is_api_count ev"
    "\<forall>ev\<in>set (preview 1 (take 3 ms)). \<not> is_api_count ev"
    using scrape_no_api_count[of e] fetch_no_api_count[of e] preview_no_api_count s f by simp_all
  show ?thesis
    using assms l unfolding main_def Let_def
    by (auto simp: s f is_api_count_def split: if_splits)
qed

lemma main_after_fetch:
  assumes "Invoked ''fetch_openrouter_api_models'' \<in> set (events (main e))"
  shows "exit_code (main e) = 0
       \<and> (\<not> truthy (snd (fetch_openrouter_api_models e)) \<longrightarrow>
            last (events (main e)) = Log WARNING NoApiData)"
proof -
  obtain evs ms where s: "scrape_openrouter_models e = (evs, ms)"
    by (cases "scrape_openrouter_models e")
  obtain evf api where f: "fetch_openrouter_api_models e = (evf, api)"
    by (cases "fetch_openrouter_api_models e")
  have l: "\<forall>ev\<in>set evs. is_log ev"
    using scrape_events_log[of e] s by simp
  show ?thesis
    using assms l unfolding main_def Let_def
    by (auto simp: s f is_log_def split: if_splits)
qed

lemma main_env_empty_api_text:
  "Invoked ''fetch_openrouter_api_models'' \<in> set (events (main env_empty_api_text))"
  by (simp add: env_empty_api_text_def env_ok_def main_simps scenario_a_def eval_simps)

section \<open>Properties of the normalizer\<close>

text \<open>
  Claim C1, as amended. On the two rows of scenario A the function returns exactly one
  record, with model \<open>GPT-X\<close> and id \<open>openai/gpt-x\<close>: the second row is dropped, its key
  \<open>openai/gpt-x\<close> being the first row's. The context of the record is \<open>128\<close>, the first
  maximal run of digits of \<open>128,000\<close>. On the same rows with the comma already removed,
  as the in-page script passes them, the context of the record is \<open>128000\<close>.
\<close>

theorem scenario_a_context_is_first_run:
  "validate_and_clean_models scenario_a =
     Inr [\<lparr>rec_model = ''GPT-X'', rec_id = ''openai/gpt-x'', rec_context = ''128''\<rparr>]
   \<and> validate_and_clean_models scenario_a_as_scraped =
     Inr [\<lparr>rec_model = ''GPT-X'', rec_id = ''openai/gpt-x'', rec_context = ''128000''\<rparr>]"
  by (simp add: scenario_a_def scenario_a_as_scraped_def eval_simps)

text \<open>
  Claim C1 as stated fails: on the rows of scenario A, with the context \<open>128,000\<close>, the
  function does not return the record whose context is \<open>128000\<close>.
\<close>

theorem scenario_a_context_not_128000:
  "validate_and_clean_models scenario_a \<noteq>
     Inr [\<lparr>rec_model = ''GPT-X'', rec_id = ''openai/gpt-x'', rec_context = ''128000''\<rparr>]"
  by (simp add: scenario_a_def eval_simps)

text \<open>
  Claim C5. When the function returns, no two records of the output have the same dedup
  key; the keys of the output are the keys of the candidate records in the order of their
  first appearance; and every record of the output is the first candidate with its key.
\<close>

theorem no_two_records_share_a_key:
  assumes "validate_and_clean_models L = Inr out"
  shows "distinct (map dedup_key out)
       \<and> map dedup_key out = rev (remdups (rev (map dedup_key (candidates L))))
       \<and> (\<forall>r\<in>set out. find (\<lambda>c. dedup_key c = dedup_key r) (candidates L) = Some r)"
proof -
  from assms have out: "out = keep_first {} (candidates L)"
    by (simp add: validate_Inr_iff)
  have "distinct (map dedup_key out)" unfolding out by (rule keep_first_distinct)
  moreover have "map dedup_key out = rev (remdups (rev (map dedup_key (candidates L))))"
    unfolding out by (simp add: keep_first_keys)
  moreover have "\<forall>r\<in>set out. find (\<lambda>c. dedup_key c = dedup_key r) (candidates L) = Some r"
    unfolding out by (blast intro: keep_first_find)
  ultimately show ?thesis by blast
qed

theorem no_two_records_share_a_key_witness:
  "validate_and_clean_models dedup_example = Inr dedup_example_out
   \<and> distinct (map dedup_key dedup_example_out)
   \<and> map dedup_key dedup_example_out = [''x/a'', ''y'']
   \<and> find (\<lambda>c. dedup_key c = ''x/a'') (candidates dedup_example)
       = Some \<lparr>rec_model = ''First'', rec_id = ''x/A'', rec_context = ''1''\<rparr>"
proof -
  have h: "validate_and_clean_models dedup_example = Inr dedup_example_out"
    by (rule dedup_example_eval)
  have k: "map dedup_key dedup_example_out = [''x/a'', ''y'']"
    by (simp add: dedup_example_out_def dedup_key_def eval_simps)
  have m: "\<lparr>rec_model = ''First'', rec_id = ''x/A'', rec_context = ''1''\<rparr> \<in> set dedup_example_out"
    by (simp add: dedup_example_out_def)
  have kk: "dedup_key \<lparr>rec_model = ''First'', rec_id = ''x/A'', rec_context = ''1''\<rparr> = ''x/a''"
    by (simp add: dedup_key_def eval_simps)
  from no_two_records_share_a_key[OF h] have
    d: "distinct (map dedup_key dedup_example_out)"
    and f: "\<forall>r\<in>set dedup_example_out.
          find (\<lambda>c. dedup_key c = dedup_key r) (candidates dedup_example) = Some r"
    by blast+
  from bspec[OF f m] kk have "find (\<lambda>c. dedup_key c = ''x/a'') (candidates dedup_example)
       = Some \<lparr>rec_model = ''First'', rec_id = ''x/A'', rec_context = ''1''\<rparr>"
    by simp
  with h d k show ?thesis by blast
qed



text \<open>
  Claim C7. A dict whose name and id are both empty after trimming contributes nothing:
  the function returns the same with and without it, wherever it stands in the list. The
  single row of scenario B gives the empty list.
\<close>

theorem empty_name_and_id_contribute_nothing:
  assumes "strip_attr (dict_get d ''model'' (PStr [])) = Inr []"
    and "strip_attr (dict_get d ''id'' (PStr [])) = Inr []"
  shows "validate_and_clean_models (pre @ Dict d # post) = validate_and_clean_models (pre @ post)
       \<and> validate_and_clean_models scenario_b = Inr []"
proof
  show "validate_and_clean_models (pre @ Dict d # post) = validate_and_clean_models (pre @ post)"
    unfolding validate_and_clean_models_def using assms by (rule vcm_loop_drop_empty_row)
  show "validate_and_clean_models scenario_b = Inr []"
    by (simp add: scenario_b_def eval_simps)
qed

theorem empty_name_and_id_contribute_nothing_witness:
  "validate_and_clean_models
     ([] @ Dict [''model'' \<mapsto> PStr '' '', ''context'' \<mapsto> PStr ''1000''] # [Dict context_example])
   = validate_and_clean_models ([] @ [Dict context_example])
   \<and> validate_and_clean_models scenario_b = Inr []"
proof -
  let ?d = "[''model'' \<mapsto> PStr '' '', ''context'' \<mapsto> PStr ''1000'']"
  have a: "strip_attr (dict_get ?d ''model'' (PStr [])) = Inr []"
    by (simp add: eval_simps)
  have b: "strip_attr (dict_get ?d ''id'' (PStr [])) = Inr []"
    by (simp add: eval_simps)
  from empty_name_and_id_contribute_nothing[OF a b, of "[]" "[Dict context_example]"]
  show ?thesis .
qed

text \<open>
  Claim C8. The function applied to its own output, read as a list of dicts, returns that
  output.
\<close>

theorem normalizer_idempotent:
  assumes "validate_and_clean_models L = Inr out"
  shows "validate_and_clean_models (map emitted_dict out) = Inr out"
proof -
  from assms have out: "out = keep_first {} (candidates L)"
    by (simp add: validate_Inr_iff)
  have "\<forall>r\<in>set out. normal_record r"
  proof
    fix r assume "r \<in> set out"
    with out keep_first_subset have "r \<in> set (candidates L)" by blast
    then show "normal_record r" by (auto simp: set_candidates intro: candidate_normal)
  qed
  then have c: "candidates (map emitted_dict out) = out" by (rule candidates_emitted)
  have "distinct (map dedup_key out)" unfolding out by (rule keep_first_distinct)
  then have k: "keep_first {} out = out" by (rule keep_first_fixed) simp
  have "\<forall>row\<in>set (map emitted_dict out). \<not> raises row"
    by (auto simp: emitted_dict_not_raises)
  then show ?thesis by (simp add: validate_Inr_iff c k)
qed

theorem normalizer_idempotent_witness:
  "validate_and_clean_models dedup_example = Inr dedup_example_out
   \<and> validate_and_clean_models (map emitted_dict dedup_example_out) = Inr dedup_example_out"
proof -
  have h: "validate_and_clean_models dedup_example = Inr dedup_example_out"
    by (rule dedup_example_eval)
  from h normalizer_idempotent[OF h] show ?thesis by (rule conjI)
qed

text \<open>
  Claim C9. Every record of the output has a model field that is not empty and equals the
  trimmed name of a dict of the input, or its trimmed id when the name is empty; its
  context is made of digits only (or is empty). Elements of the input that are no dicts
  contribute nothing: without them the function returns the same.
\<close>

theorem emitted_record_shape:
  assumes "validate_and_clean_models L = Inr out"
  shows "(\<forall>r\<in>set out.
            rec_model r \<noteq> [] \<and> list_all py_isdigit (rec_context r) \<and>
            (\<exists>d m i. Dict d \<in> set L \<and>
               dict_get d ''model'' (PStr []) = PStr m \<and> dict_get d ''id'' (PStr []) = PStr i \<and>
               rec_model r = (if py_strip m \<noteq> [] then py_strip m else py_strip i)))
       \<and> validate_and_clean_models (filter is_dict L) = Inr out"
proof
  from assms have out: "out = keep_first {} (candidates L)"
    by (simp add: validate_Inr_iff)
  show "\<forall>r\<in>set out.
            rec_model r \<noteq> [] \<and> list_all py_isdigit (rec_context r) \<and>
            (\<exists>d m i. Dict d \<in> set L \<and>
               dict_get d ''model'' (PStr []) = PStr m \<and> dict_get d ''id'' (PStr []) = PStr i \<and>
               rec_model r = (if py_strip m \<noteq> [] then py_strip m else py_strip i))"
  proof
    fix r assume "r \<in> set out"
    with out keep_first_subset have "r \<in> set (candidates L)" by blast
    then obtain row where row: "row \<in> set L" and rr: "row_record row = Some r"
      by (auto simp: set_candidates)
    from candidate_normal[OF rr] have n: "rec_model r \<noteq> []" "list_all py_isdigit (rec_context r)"
      by (simp_all add: normal_record_def)
    from rr obtain d m i where d: "row = Dict d"
      and m: "dict_get d ''model'' (PStr []) = PStr m" and i: "dict_get d ''id'' (PStr []) = PStr i"
      and r: "r = \<lparr>rec_model = py_or (py_strip m) (py_strip i), rec_id = py_strip i,
               rec_context = clean_context (dict_get d ''context'' (PStr []))\<rparr>"
      by (rule row_record_SomeD)
    from r have "rec_model r = (if py_strip m \<noteq> [] then py_strip m else py_strip i)"
      by (simp add: py_or_def)
    with row d m i n show "rec_model r \<noteq> [] \<and> list_all py_isdigit (rec_context r) \<and>
            (\<exists>d m i. Dict d \<in> set L \<and>
               dict_get d ''model'' (PStr []) = PStr m \<and> dict_get d ''id'' (PStr []) = PStr i \<and>
               rec_model r = (if py_strip m \<noteq> [] then py_strip m else py_strip i))"
      by blast
  qed
  from assms show "validate_and_clean_models (filter is_dict L) = Inr out"
    by (simp add: validate_and_clean_models_def vcm_loop_filter_is_dict)
qed

theorem emitted_record_shape_witness:
  "validate_and_clean_models dedup_example = Inr dedup_example_out
   \<and> rec_model (hd dedup_example_out) \<noteq> []
   \<and> list_all py_isdigit (rec_context (hd dedup_example_out))
   \<and> validate_and_clean_models (filter is_dict dedup_example) = Inr dedup_example_out"
proof -
  have h: "validate_and_clean_models dedup_example = Inr dedup_example_out"
    by (rule dedup_example_eval)
  have m: "hd dedup_example_out \<in> set dedup_example_out"
    by (simp add: dedup_example_out_def)
  from emitted_record_shape[OF h] have
    a: "\<forall>r\<in>set dedup_example_out.
            rec_model r \<noteq> [] \<and> list_all py_isdigit (rec_context r) \<and>
            (\<exists>d m i. Dict d \<in> set dedup_example \<and>
               dict_get d ''model'' (PStr []) = PStr m \<and> dict_get d ''id'' (PStr []) = PStr i \<and>
               rec_model r = (if py_strip m \<noteq> [] then py_strip m else py_strip i))"
    and b: "validate_and_clean_models (filter is_dict dedup_example) = Inr dedup_example_out"
    by blast+
  from bspec[OF a m] h b show ?thesis by blast
qed

text \<open>
  Claim C10. The function raises \<^verbatim>\<open>AttributeError\<close> exactly when some dict of the input has a
  \<^verbatim>\<open>model\<close> or \<^verbatim>\<open>id\<close> value that is not a string, an integer for example; the value of
  \<^verbatim>\<open>context\<close> plays no part in this, and an integer context is turned into text.
\<close>

theorem non_string_name_or_id_raises:
  "(validate_and_clean_models L = Inl AttributeError \<longleftrightarrow> (\<exists>row\<in>set L. raises row))
   \<and> validate_and_clean_models [Dict [''model'' \<mapsto> PInt 7]] = Inl AttributeError
   \<and> validate_and_clean_models [Dict [''model'' \<mapsto> PStr ''m'', ''context'' \<mapsto> PInt 128000]]
       = Inr [\<lparr>rec_model = ''m'', rec_id = [], rec_context = ''128000''\<rparr>]"
proof (intro conjI)
  show "validate_and_clean_models L = Inl AttributeError \<longleftrightarrow> (\<exists>row\<in>set L. raises row)"
    by (rule validate_Inl_iff)
  show "validate_and_clean_models [Dict [''model'' \<mapsto> PInt 7]] = Inl AttributeError"
    by (simp add: eval_simps)
  show "validate_and_clean_models [Dict [''model'' \<mapsto> PStr ''m'', ''context'' \<mapsto> PInt 128000]]
       = Inr [\<lparr>rec_model = ''m'', rec_id = [], rec_context = ''128000''\<rparr>]"
    by (simp add: eval_simps dec_of_nat.simps)
qed

theorem non_string_name_or_id_raises_witness:
  "raises (Dict [''id'' \<mapsto> PNone])
   \<and> validate_and_clean_models [Dict context_example, Dict [''id'' \<mapsto> PNone]] = Inl AttributeError"
proof -
  have r: "raises (Dict [''id'' \<mapsto> PNone])"
    by (simp add: raises_def dict_get_def is_str_def)
  then have "\<exists>row\<in>set [Dict context_example, Dict [''id'' \<mapsto> PNone]]. raises row" by simp
  with non_string_name_or_id_raises[of "[Dict context_example, Dict [''id'' \<mapsto> PNone]]"]
  have "validate_and_clean_models [Dict context_example, Dict [''id'' \<mapsto> PNone]] = Inl AttributeError"
    by blast
  with r show ?thesis by (rule conjI)
qed

section \<open>Properties of the run\<close>

text \<open>
  Claim C2, as amended. When \<^verbatim>\<open>main\<close> calls the fetch and the text of the API page is empty
  or not valid JSON, the fetch returns the empty object and \<^verbatim>\<open>main\<close> does not write the
  payload file: the file is neither opened nor written, no count of API models is logged,
  the last log line is the warning that no API data was obtained, and the exit code is 0.
  In every run the payload file is written only when the payload is true (for an object:
  not empty), and then with the payload.
\<close>

theorem empty_or_invalid_api_text_skips_payload_file:
  assumes "Invoked ''fetch_openrouter_api_models'' \<in> set (events (main e))"
    and "fetch_content e = Some (Some text)"
    and "text = [] \<or> json_loads e text = None"
  shows "snd (fetch_openrouter_api_models e) = JObj []
       \<and> (\<forall>c. Dumped OUTPUT_MODELS_FILE c \<notin> set (events (main e)))
       \<and> Opened OUTPUT_MODELS_FILE \<notin> set (events (main e))
       \<and> (\<forall>l n. Log l (ApiCount n) \<notin> set (events (main e)))
       \<and> last (events (main e)) = Log WARNING NoApiData
       \<and> exit_code (main e) = 0
       \<and> (\<forall>c. Dumped OUTPUT_MODELS_FILE c \<in> set (events (main e'))
             \<longrightarrow> truthy (snd (fetch_openrouter_api_models e'))
                \<and> c = Payload (snd (fetch_openrouter_api_models e')))"
proof -
  have r: "snd (fetch_openrouter_api_models e) = JObj []"
    using assms(2,3) by (rule fetch_empty_or_invalid)
  then have nt: "\<not> truthy (snd (fetch_openrouter_api_models e))" by simp
  have d: "\<forall>c. Dumped OUTPUT_MODELS_FILE c \<notin> set (events (main e))"
    using nt payload_file_needs_truthy[of _ e] by blast
  have p: "Opened OUTPUT_MODELS_FILE \<notin> set (events (main e))"
    using nt payload_file_needs_truthy[of _ e] by blast
  have a: "\<forall>l n. Log l (ApiCount n) \<notin> set (events (main e))"
    using nt api_count_needs_truthy[of _ _ e] by blast
  have g: "\<forall>c. Dumped OUTPUT_MODELS_FILE c \<in> set (events (main e'))
             \<longrightarrow> truthy (snd (fetch_openrouter_api_models e'))
                \<and> c = Payload (snd (fetch_openrouter_api_models e'))"
    using payload_file_needs_truthy[of _ e'] payload_file_content[of _ e'] by blast
  from main_after_fetch[OF assms(1)] nt r d p a g show ?thesis by blast
qed

theorem empty_or_invalid_api_text_skips_payload_file_witness:
  "Invoked ''fetch_openrouter_api_models'' \<in> set (events (main env_empty_api_text))
   \<and> fetch_content env_empty_api_text = Some (Some [])
   \<and> snd (fetch_openrouter_api_models env_empty_api_text) = JObj []
   \<and> Opened OUTPUT_MODELS_FILE \<notin> set (events (main env_empty_api_text))
   \<and> last (events (main env_empty_api_text)) = Log WARNING NoApiData
   \<and> exit_code (main env_empty_api_text) = 0"
proof -
  have h1: "Invoked ''fetch_openrouter_api_models'' \<in> set (events (main env_empty_api_text))"
    by (rule main_env_empty_api_text)
  have h2: "fetch_content env_empty_api_text = Some (Some [])"
    by (simp add: env_empty_api_text_def)
  have h3: "[] = ([]::string) \<or> json_loads env_empty_api_text [] = None" by simp
  from empty_or_invalid_api_text_skips_payload_file[OF h1 h2 h3] h1 h2 show ?thesis by blast
qed

text \<open>
  Claim C2 as stated fails: in the run where the API page has no text, the fetch returns
  the empty object, the payload file is not written with \<^verbatim>\<open>{}\<close> and no count of zero is
  logged.
\<close>

theorem empty_api_text_payload_file_not_written:
  "snd (fetch_openrouter_api_models env_empty_api_text) = JObj []
   \<and> Dumped OUTPUT_MODELS_FILE (Payload (JObj [])) \<notin> set (events (main env_empty_api_text))
   \<and> Log INFO (ApiCount 0) \<notin> set (events (main env_empty_api_text))"
  by (simp add: env_empty_api_text_def env_ok_def main_simps scenario_a_def eval_simps)

text \<open>
  Claim C3. A failure to open the payload file is logged and the run still ends with exit
  code 0, while a failure to open the record file is logged and ends the run with exit
  code 1.
\<close>

theorem payload_write_failure_exits_zero:
  "exit_code (main env_payload_write_fails) = 0
   \<and> last (events (main env_payload_write_fails)) = Log ERROR ApiSaveFailed
   \<and> exit_code (main env_records_write_fails) = 1
   \<and> last (events (main env_records_write_fails)) = Log ERROR SaveFailed"
  by (simp add: env_payload_write_fails_def env_records_write_fails_def env_ok_def main_simps
      scenario_a_def eval_simps api_text_def)

text \<open>
  Claim C4. When the scraper returns no record, \<^verbatim>\<open>main\<close> ends with exit code 1 after the
  warning, with no event on the file system (no directory made, no file opened or
  written) and without calling the fetch.
\<close>

theorem zero_records_exit_before_any_write:
  assumes "snd (scrape_openrouter_models e) = []"
  shows "exit_code (main e) = 1
       \<and> filter is_file_event (events (main e)) = []
       \<and> Invoked ''fetch_openrouter_api_models'' \<notin> set (events (main e))
       \<and> last (events (main e)) = Log WARNING NoModels"
proof -
  have f: "filter is_file_event (fst (scrape_openrouter_models e)) = []"
    using scrape_events_log by (rule filter_file_events_logs)
  have "Invoked ''fetch_openrouter_api_models'' \<notin> set (fst (scrape_openrouter_models e))"
    using scrape_events_log[of e] by (auto simp: is_log_def)
  with f show ?thesis
    by (simp add: main_no_models[OF assms] is_file_event_def)
qed

theorem zero_records_exit_before_any_write_witness:
  "snd (scrape_openrouter_models env_no_rows) = []
   \<and> exit_code (main env_no_rows) = 1
   \<and> filter is_file_event (events (main env_no_rows)) = []
   \<and> Invoked ''fetch_openrouter_api_models'' \<notin> set (events (main env_no_rows))
   \<and> last (events (main env_no_rows)) = Log WARNING NoModels"
proof -
  have h: "snd (scrape_openrouter_models env_no_rows) = []"
    by (simp add: env_no_rows_def env_ok_def scrape_openrouter_models_def)
  from h zero_records_exit_before_any_write[OF h] show ?thesis by (rule conjI)
qed

end
